theory Spec2Isabelle
  imports Main
begin

section \<open>Data model of the crossword CSP (generate.py of lec3 crossword)\<close>

text \<open>
  Exceptions of the Python run-time that the code of \<open>generate.py\<close> can raise.
  Every operation returns its outcome together with the domain store it leaves behind,
  so that the state after a raise is part of the model.
\<close>

datatype error = KeyError | IndexError | TypeError | RuntimeError | NotImplementedError

datatype direction = ACROSS | DOWN

text \<open>
  Modelled from the spec: \<open>crossword.py\<close> (classes \<open>Variable\<close> and \<open>Crossword\<close>) is not
  among the sources. A slot is identified by (row, col, orientation, length); the puzzle
  model exposes the set of slots, the vocabulary (a set of words) and the overlap table,
  a dictionary keyed by ordered pairs of slots whose value is \<open>None\<close> (no crossing) or the
  pair of indices \<open>(i, j)\<close>. \<open>neighbors(var)\<close> is the set of slots that cross \<open>var\<close>.

  A Python set is a list here, in the order in which the set is iterated; no theorem
  below depends on that order, and \<open>removeAll\<close> is the set's \<open>remove\<close>.
\<close>

datatype variable = Variable (var_i: nat) (var_j: nat) (var_direction: direction) (var_length: nat)

type_synonym word = string

record crossword =
  variables :: "variable list"
  words :: "word list"
  overlaps :: "variable \<times> variable \<rightharpoonup> (nat \<times> nat) option"

definition crosses :: "crossword \<Rightarrow> variable \<Rightarrow> variable \<Rightarrow> bool" where
  "crosses cw v var =
     (case overlaps cw (v, var) of Some (Some ij) \<Rightarrow> True | _ \<Rightarrow> False)"

definition neighbors :: "crossword \<Rightarrow> variable \<Rightarrow> variable list" where
  "neighbors cw var = filter (\<lambda>v. v \<noteq> var \<and> crosses cw v var) (variables cw)"

text \<open>\<open>self.domains\<close>: a dictionary from slots to sets of words.\<close>

type_synonym domains = "variable \<rightharpoonup> word list"

text \<open>An assignment: a dictionary in insertion order; a value may be \<open>None\<close>.\<close>

type_synonym assignment = "(variable \<times> word option) list"

text \<open>\<open>CrosswordCreator.__init__\<close>: every slot starts with a copy of the vocabulary.\<close>

definition init_domains :: "crossword \<Rightarrow> domains" where
  "init_domains cw = (\<lambda>var. if var \<in> set (variables cw) then Some (words cw) else None)"

text \<open>\<open>len(s)\<close> of a set: the number of distinct elements.\<close>

definition set_len :: "word list \<Rightarrow> nat" where
  "set_len ws = length (remdups ws)"

definition dom_words :: "domains \<Rightarrow> variable \<Rightarrow> word set" where
  "dom_words doms var = (case doms var of None \<Rightarrow> {} | Some ws \<Rightarrow> set ws)"

section \<open>Node consistency\<close>

text \<open>
  \<open>for value in self.domains[var]: if len(value) != var.length: self.domains[var].remove(value)\<close>

  The loop iterates over the very set it removes from. A set iterator remembers the size
  of the set when it is created (\<open>used\<close>) and raises \<open>RuntimeError\<close> ("Set changed size
  during iteration") at the first \<open>next()\<close> that finds another size. \<open>todo\<close> is what the
  iterator has not yet produced.
\<close>

fun node_loop :: "variable \<Rightarrow> nat \<Rightarrow> word list \<Rightarrow> domains \<Rightarrow> (error + unit) \<times> domains" where
  "node_loop var used todo doms =
     (case doms var of
        None \<Rightarrow> (Inl KeyError, doms)
      | Some cur \<Rightarrow>
          if set_len cur \<noteq> used then (Inl RuntimeError, doms)
          else (case todo of
                  [] \<Rightarrow> (Inr (), doms)
                | value # rest \<Rightarrow>
                    if length value \<noteq> var_length var
                    then node_loop var used rest (doms(var \<mapsto> removeAll value cur))
                    else node_loop var used rest doms))"

declare node_loop.simps [simp del]

fun node_vars :: "variable list \<Rightarrow> domains \<Rightarrow> (error + unit) \<times> domains" where
  "node_vars [] doms = (Inr (), doms)"
| "node_vars (var # vars) doms =
     (case doms var of
        None \<Rightarrow> (Inl KeyError, doms)
      | Some ws \<Rightarrow>
          (case node_loop var (set_len ws) ws doms of
             (Inl e, doms') \<Rightarrow> (Inl e, doms')
           | (Inr u, doms') \<Rightarrow> node_vars vars doms'))"

definition enforce_node_consistency :: "crossword \<Rightarrow> domains \<Rightarrow> (error + unit) \<times> domains" where
  "enforce_node_consistency cw doms = node_vars (variables cw) doms"

section \<open>Arc consistency\<close>

text \<open>
  The inner loop of \<open>revise\<close>: is there a \<open>yval\<close> with \<open>xval[i] == yval[j]\<close>? Indexing a
  string past its end raises \<open>IndexError\<close>; \<open>xval[i]\<close> is evaluated first.
\<close>

fun satisfied_loop :: "nat \<Rightarrow> nat \<Rightarrow> word \<Rightarrow> word list \<Rightarrow> error + bool" where
  "satisfied_loop i j xval [] = Inr False"
| "satisfied_loop i j xval (yval # ys) =
     (if \<not> i < length xval then Inl IndexError
      else if \<not> j < length yval then Inl IndexError
      else if xval ! i = yval ! j then Inr True
      else satisfied_loop i j xval ys)"

text \<open>
  The outer loop of \<open>revise\<close>, again an iteration over the set that the body removes from.
\<close>

fun revise_loop ::
  "nat \<Rightarrow> nat \<Rightarrow> variable \<Rightarrow> variable \<Rightarrow> nat \<Rightarrow> word list \<Rightarrow> bool \<Rightarrow> domains
    \<Rightarrow> (error + bool) \<times> domains" where
  "revise_loop i j x y used todo revised doms =
     (case doms x of
        None \<Rightarrow> (Inl KeyError, doms)
      | Some cur \<Rightarrow>
          if set_len cur \<noteq> used then (Inl RuntimeError, doms)
          else (case todo of
                  [] \<Rightarrow> (Inr revised, doms)
                | xval # rest \<Rightarrow>
                    (case doms y of
                       None \<Rightarrow> (Inl KeyError, doms)
                     | Some dy \<Rightarrow>
                         (case satisfied_loop i j xval dy of
                            Inl e \<Rightarrow> (Inl e, doms)
                          | Inr satisfied \<Rightarrow>
                              if \<not> satisfied
                              then revise_loop i j x y used rest True
                                     (doms(x \<mapsto> removeAll xval cur))
                              else revise_loop i j x y used rest revised doms))))"

declare revise_loop.simps [simp del]

definition revise :: "crossword \<Rightarrow> variable \<Rightarrow> variable \<Rightarrow> domains \<Rightarrow> (error + bool) \<times> domains" where
  "revise cw x y doms =
     (case overlaps cw (x, y) of
        None \<Rightarrow> (Inl KeyError, doms)
      | Some None \<Rightarrow> (Inr False, doms)
      | Some (Some (i, j)) \<Rightarrow>
          (case doms x of
             None \<Rightarrow> (Inl KeyError, doms)
           | Some dx \<Rightarrow> revise_loop i j x y (set_len dx) dx False doms))"

text \<open>
  The initial worklist of \<open>ac3\<close>. The test \<open>((neigbor_var, var) or (var, neigbor_var)) in arcs\<close>
  is \<open>(neigbor_var, var) in arcs\<close>: a pair is a non-empty tuple, hence truthy.
\<close>

fun arcs_of_neighbors :: "variable \<Rightarrow> variable list \<Rightarrow> (variable \<times> variable) list
    \<Rightarrow> (variable \<times> variable) list" where
  "arcs_of_neighbors var [] arcs = arcs"
| "arcs_of_neighbors var (neigbor_var # ns) arcs =
     (if (neigbor_var, var) \<in> set arcs then arcs_of_neighbors var ns arcs
      else arcs_of_neighbors var ns (arcs @ [(neigbor_var, var)]))"

fun arcs_of_variables :: "crossword \<Rightarrow> variable list \<Rightarrow> (variable \<times> variable) list
    \<Rightarrow> (variable \<times> variable) list" where
  "arcs_of_variables cw [] arcs = arcs"
| "arcs_of_variables cw (var # vars) arcs =
     arcs_of_variables cw vars (arcs_of_neighbors var (neighbors cw var) arcs)"

definition all_arcs :: "crossword \<Rightarrow> (variable \<times> variable) list" where
  "all_arcs cw = arcs_of_variables cw (variables cw) []"

text \<open>
  The worklist loop of \<open>ac3\<close>. Nothing in its shape bounds the number of iterations, so a
  run that never ends is the value \<open>None\<close>. The result carries the worklist as the loop
  leaves it: with an explicit \<open>arcs\<close> argument that is the caller's own list object.
\<close>

partial_function (option) ac3_loop ::
  "crossword \<Rightarrow> (variable \<times> variable) list \<Rightarrow> domains
    \<Rightarrow> ((error + bool) \<times> (variable \<times> variable) list \<times> domains) option" where
  "ac3_loop cw arcs doms =
     (case arcs of
        [] \<Rightarrow> Some (Inr True, arcs, doms)
      | (x, y) # rest \<Rightarrow>
          (case revise cw x y doms of
             (Inl e, doms') \<Rightarrow> Some (Inl e, rest, doms')
           | (Inr revised, doms') \<Rightarrow>
               if revised then
                 (case doms' x of
                    None \<Rightarrow> Some (Inl KeyError, rest, doms')
                  | Some dx \<Rightarrow>
                      if set_len dx = 0 then Some (Inr False, rest, doms')
                      else ac3_loop cw
                             (rest @ map (\<lambda>z. (z, x)) (filter (\<lambda>z. z \<noteq> y) (neighbors cw x)))
                             doms')
               else ac3_loop cw rest doms'))"

definition ac3 ::
  "crossword \<Rightarrow> (variable \<times> variable) list option \<Rightarrow> domains
    \<Rightarrow> ((error + bool) \<times> (variable \<times> variable) list \<times> domains) option" where
  "ac3 cw arcs doms =
     (case arcs of
        None \<Rightarrow> ac3_loop cw (all_arcs cw) doms
      | Some given \<Rightarrow> ac3_loop cw given doms)"

section \<open>Predicates on assignments\<close>

text \<open>\<open>assignment_complete\<close> looks at the values of the dictionary only.\<close>

fun assignment_values_complete :: "word option list \<Rightarrow> bool" where
  "assignment_values_complete [] = True"
| "assignment_values_complete (val # vals) =
     (if val = None then False else assignment_values_complete vals)"

definition assignment_complete :: "crossword \<Rightarrow> assignment \<Rightarrow> bool" where
  "assignment_complete cw assignment = assignment_values_complete (map snd assignment)"

text \<open>
  The loop of \<open>consistent\<close> over the neighbours of \<open>var\<close>: \<open>Inr False\<close> is the
  \<open>return False\<close>, \<open>Inr True\<close> the normal end of the loop. Unpacking \<open>None\<close> into
  \<open>(i, j)\<close> and indexing \<open>None\<close> raise \<open>TypeError\<close>.
\<close>

fun consistent_neighbors ::
  "crossword \<Rightarrow> assignment \<Rightarrow> variable \<Rightarrow> word \<Rightarrow> variable list \<Rightarrow> error + bool" where
  "consistent_neighbors cw assignment var val [] = Inr True"
| "consistent_neighbors cw assignment var val (neighbor_var # ns) =
     (case map_of assignment neighbor_var of
        None \<Rightarrow> consistent_neighbors cw assignment var val ns
      | Some other \<Rightarrow>
          (case overlaps cw (var, neighbor_var) of
             None \<Rightarrow> Inl KeyError
           | Some None \<Rightarrow> Inl TypeError
           | Some (Some (i, j)) \<Rightarrow>
               if \<not> i < length val then Inl IndexError
               else (case other of
                       None \<Rightarrow> Inl TypeError
                     | Some w \<Rightarrow>
                         if \<not> j < length w then Inl IndexError
                         else if val ! i \<noteq> w ! j then Inr False
                         else consistent_neighbors cw assignment var val ns)))"

text \<open>
  The body of the loop of \<open>consistent\<close> for one item. Its last statement is
  \<open>values.append[val]\<close>, which subscripts the bound method and raises \<open>TypeError\<close>; so an
  iteration ends in \<open>return False\<close> or in a raise, the list \<open>values\<close> stays empty and the
  loop never reaches a second item. Running off the end of the loop (the empty dictionary)
  returns \<open>None\<close>: the result is \<open>Some b\<close> for \<open>return b\<close> and \<open>None\<close> for the implicit
  \<open>return None\<close>.
\<close>

fun consistent_loop ::
  "crossword \<Rightarrow> assignment \<Rightarrow> assignment \<Rightarrow> word list \<Rightarrow> error + bool option" where
  "consistent_loop cw assignment [] vals = Inr None"
| "consistent_loop cw assignment ((var, val) # rest) vals =
     (case val of
        None \<Rightarrow> Inl TypeError
      | Some w \<Rightarrow>
          if w \<in> set vals then Inr (Some False)
          else if length w \<noteq> var_length var then Inr (Some False)
          else (case consistent_neighbors cw assignment var w (neighbors cw var) of
                  Inl e \<Rightarrow> Inl e
                | Inr ok \<Rightarrow> if \<not> ok then Inr (Some False) else Inl TypeError))"

definition consistent :: "crossword \<Rightarrow> assignment \<Rightarrow> error + bool option" where
  "consistent cw assignment = consistent_loop cw assignment assignment []"

section \<open>Search\<close>

text \<open>\<open>backtrack\<close> is \<open>raise NotImplementedError\<close>.\<close>

definition backtrack :: "crossword \<Rightarrow> assignment \<Rightarrow> domains \<Rightarrow> (error + assignment option) \<times> domains" where
  "backtrack cw assignment doms = (Inl NotImplementedError, doms)"

text \<open>
  \<open>solve\<close>: node consistency, \<open>ac3()\<close> with its result discarded, then \<open>backtrack(dict())\<close>.
  A raise in a step ends \<open>solve\<close> with that raise.
\<close>

definition solve :: "crossword \<Rightarrow> domains \<Rightarrow> ((error + assignment option) \<times> domains) option" where
  "solve cw doms =
     (case enforce_node_consistency cw doms of
        (Inl e, doms1) \<Rightarrow> Some (Inl e, doms1)
      | (Inr u, doms1) \<Rightarrow>
          (case ac3 cw None doms1 of
             None \<Rightarrow> None
           | Some (Inl e, arcs, doms2) \<Rightarrow> Some (Inl e, doms2)
           | Some (Inr b, arcs, doms2) \<Rightarrow> Some (backtrack cw [] doms2)))"

section \<open>Concrete puzzles\<close>

text \<open>
  The example scenarios: one ACROSS slot of length 3 with the vocabulary CAT, DOG; one slot
  of length 4; two crossing slots of length 3 where index 1 of the first meets index 0
  of the second; and a grid of three slots.
\<close>

definition slot3 :: variable where
  "slot3 = Variable 0 0 ACROSS 3"

definition puzzle_one_slot :: crossword where
  "puzzle_one_slot =
     \<lparr>variables = [slot3], words = [''CAT'', ''DOG''], overlaps = Map.empty\<rparr>"

definition slot4 :: variable where
  "slot4 = Variable 0 0 ACROSS 4"

definition puzzle_length4 :: crossword where
  "puzzle_length4 =
     \<lparr>variables = [slot4], words = [''CAT'', ''DOG'', ''BIRD''], overlaps = Map.empty\<rparr>"

definition slotA :: variable where
  "slotA = Variable 0 0 ACROSS 3"

definition slotB :: variable where
  "slotB = Variable 0 1 DOWN 3"

definition puzzle_crossing :: crossword where
  "puzzle_crossing =
     \<lparr>variables = [slotA, slotB], words = [''CAT'', ''ACT'', ''TIE''],
      overlaps = map_of [((slotA, slotB), Some (1, 0)), ((slotB, slotA), Some (0, 1))]\<rparr>"

text \<open>
  A grid of three slots: the ACROSS slot of row 0 is crossed at its first cell by a DOWN
  slot in column 0 and at its last cell by a DOWN slot in column 2; the two DOWN slots do
  not cross each other.
\<close>

definition slotL :: variable where
  "slotL = Variable 0 0 DOWN 3"

definition slotR :: variable where
  "slotR = Variable 0 2 DOWN 3"

definition puzzle_three :: crossword where
  "puzzle_three =
     \<lparr>variables = [slotA, slotL, slotR],
      words = [''CAT'', ''DOG'', ''COW'', ''TIE'', ''GNU''],
      overlaps = map_of
        [((slotA, slotL), Some (0, 0)), ((slotL, slotA), Some (0, 0)),
         ((slotA, slotR), Some (2, 0)), ((slotR, slotA), Some (0, 2)),
         ((slotL, slotR), None), ((slotR, slotL), None)]\<rparr>"

definition doms_of :: "(variable \<times> word list) list \<Rightarrow> domains" where
  "doms_of kvs = map_of kvs"


lemmas concrete_defs = slot3_def puzzle_one_slot_def slot4_def puzzle_length4_def
  slotA_def slotB_def puzzle_crossing_def slotL_def slotR_def puzzle_three_def
  doms_of_def init_domains_def


section \<open>Iterating over a set that the loop body shrinks\<close>

lemma set_len_removeAll:
  "v \<in> set cur \<Longrightarrow> set_len (removeAll v cur) < set_len cur"
proof -
  assume "v \<in> set cur"
  then have "card (set cur - {v}) < card (set cur)"
    by (intro card_Diff1_less) simp_all
  then show ?thesis
    by (simp add: set_len_def length_remdups_card_conv)
qed

lemma node_loop_changed:
  "doms var = Some cur \<Longrightarrow> set_len cur \<noteq> used \<Longrightarrow>
   node_loop var used todo doms = (Inl RuntimeError, doms)"
  by (simp add: node_loop.simps)

lemma node_loop_find:
  "doms var = Some cur \<Longrightarrow> set_len cur = used \<Longrightarrow> set todo \<subseteq> set cur \<Longrightarrow>
   node_loop var used todo doms =
     (case find (\<lambda>value. length value \<noteq> var_length var) todo of
        None \<Rightarrow> (Inr (), doms)
      | Some value \<Rightarrow> (Inl RuntimeError, doms(var \<mapsto> removeAll value cur)))"
proof (induction todo)
  case Nil
  then show ?case by (simp add: node_loop.simps)
next
  case (Cons w rest)
  show ?case
  proof (cases "length w \<noteq> var_length var")
    case True
    from Cons.prems have "w \<in> set cur" by simp
    then have "set_len (removeAll w cur) \<noteq> used"
      using set_len_removeAll [of w cur] Cons.prems(2) by simp
    then have "node_loop var used rest (doms(var \<mapsto> removeAll w cur))
        = (Inl RuntimeError, doms(var \<mapsto> removeAll w cur))"
      by (intro node_loop_changed [where cur = "removeAll w cur"]) simp_all
    with True Cons.prems show ?thesis
      by (simp add: node_loop.simps [of var used "w # rest"])
  next
    case False
    with Cons show ?thesis
      by (simp add: node_loop.simps [of var used "w # rest"])
  qed
qed

lemma revise_loop_changed:
  "doms x = Some cur \<Longrightarrow> set_len cur \<noteq> used \<Longrightarrow>
   revise_loop i j x y used todo revised doms = (Inl RuntimeError, doms)"
  by (simp add: revise_loop.simps)

lemma revise_loop_not_True:
  "doms x = Some cur \<Longrightarrow> set_len cur = used \<Longrightarrow> set todo \<subseteq> set cur \<Longrightarrow>
   fst (revise_loop i j x y used todo False doms) \<noteq> Inr True"
proof (induction todo)
  case Nil
  then show ?case by (simp add: revise_loop.simps)
next
  case (Cons xval rest)
  from Cons.prems have "xval \<in> set cur" by simp
  then have "set_len (removeAll xval cur) \<noteq> used"
    using set_len_removeAll [of xval cur] Cons.prems(2) by simp
  then have ch: "revise_loop i j x y used rest True (doms(x \<mapsto> removeAll xval cur))
        = (Inl RuntimeError, doms(x \<mapsto> removeAll xval cur))"
    by (intro revise_loop_changed [where cur = "removeAll xval cur"]) simp_all
  from Cons have ih: "fst (revise_loop i j x y used rest False doms) \<noteq> Inr True" by simp
  show ?case
    using Cons.prems ch ih
    by (simp add: revise_loop.simps [of i j x y used "xval # rest"] split: option.splits sum.splits)
qed

lemma revise_not_True: "fst (revise cw x y doms) \<noteq> Inr True"
  unfolding revise_def
  by (auto split: option.splits dest: revise_loop_not_True [OF _ refl subset_refl])

section \<open>Frame and result lemmas\<close>

lemma node_loop_subset:
  "dom_words (snd (node_loop var used todo doms)) v \<subseteq> dom_words doms v"
proof (induction todo arbitrary: doms)
  case Nil
  show ?case by (simp add: node_loop.simps [of var used "[]"] split: option.splits)
next
  case (Cons w rest)
  show ?case
  proof (cases "doms var")
    case None
    then show ?thesis by (simp add: node_loop.simps [of var used "w # rest"])
  next
    case (Some cur)
    have "dom_words (doms(var \<mapsto> removeAll w cur)) v \<subseteq> dom_words doms v"
      using Some by (auto simp: dom_words_def)
    with Cons [of "doms(var \<mapsto> removeAll w cur)"]
    have upd: "dom_words (snd (node_loop var used rest (doms(var \<mapsto> removeAll w cur)))) v
        \<subseteq> dom_words doms v"
      by (rule subset_trans)
    show ?thesis
      unfolding node_loop.simps [of var used "w # rest"]
      using Some upd Cons [of doms] by simp
  qed
qed

lemma node_vars_subset:
  "dom_words (snd (node_vars vars doms)) v \<subseteq> dom_words doms v"
proof (induction vars arbitrary: doms)
  case Nil
  show ?case by simp
next
  case (Cons var vars)
  show ?case
  proof (cases "doms var")
    case None
    then show ?thesis by simp
  next
    case (Some ws)
    obtain r d where nl: "node_loop var (set_len ws) ws doms = (r, d)" by fastforce
    have sub: "dom_words d v \<subseteq> dom_words doms v"
      using node_loop_subset [of var "set_len ws" ws doms v] nl by simp
    show ?thesis
    proof (cases r)
      case (Inl e)
      with Some nl sub show ?thesis by simp
    next
      case (Inr u)
      with Some nl sub Cons [of d] show ?thesis by auto
    qed
  qed
qed

lemma revise_loop_subset:
  "dom_words (snd (revise_loop i j x y used todo revised doms)) v \<subseteq> dom_words doms v"
proof (induction todo arbitrary: doms revised)
  case Nil
  show ?case by (simp add: revise_loop.simps [of i j x y used "[]"] split: option.splits)
next
  case (Cons w rest)
  show ?case
  proof (cases "doms x")
    case None
    then show ?thesis by (simp add: revise_loop.simps [of i j x y used "w # rest"])
  next
    case (Some cur)
    have "dom_words (doms(x \<mapsto> removeAll w cur)) v \<subseteq> dom_words doms v"
      using Some by (auto simp: dom_words_def)
    with Cons [of True "doms(x \<mapsto> removeAll w cur)"]
    have upd: "dom_words (snd (revise_loop i j x y used rest True
                 (doms(x \<mapsto> removeAll w cur)))) v \<subseteq> dom_words doms v"
      by (rule subset_trans)
    show ?thesis
      unfolding revise_loop.simps [of i j x y used "w # rest"]
      using Some upd Cons [of revised doms]
      by (simp split: option.splits sum.splits)
  qed
qed

lemma revise_subset:
  "dom_words (snd (revise cw x y doms)) v \<subseteq> dom_words doms v"
  unfolding revise_def
  by (auto split: option.splits dest: subsetD [OF revise_loop_subset])

lemma satisfied_loop_True:
  "satisfied_loop i j xval dy = Inr True \<Longrightarrow>
   \<exists>v \<in> set dy. i < length xval \<and> j < length v \<and> xval ! i = v ! j"
  by (induction dy) (auto split: if_splits)

lemma revise_loop_returns:
  "doms x = Some cur \<Longrightarrow> set_len cur = used \<Longrightarrow> set todo \<subseteq> set cur \<Longrightarrow>
   revise_loop i j x y used todo False doms = (Inr b, doms') \<Longrightarrow>
   doms' = doms \<and> \<not> b \<and>
   (\<forall>w \<in> set todo. \<exists>v \<in> dom_words doms y. i < length w \<and> j < length v \<and> w ! i = v ! j)"
proof (induction todo)
  case Nil
  then show ?case by (simp add: revise_loop.simps [of i j x y used "[]"])
next
  case (Cons xval rest)
  from Cons.prems have "xval \<in> set cur" by simp
  then have "set_len (removeAll xval cur) \<noteq> used"
    using set_len_removeAll [of xval cur] Cons.prems(2) by simp
  then have ch: "revise_loop i j x y used rest True (doms(x \<mapsto> removeAll xval cur))
        = (Inl RuntimeError, doms(x \<mapsto> removeAll xval cur))"
    by (intro revise_loop_changed [where cur = "removeAll xval cur"]) simp_all
  from Cons.prems(4) Cons.prems(1,2) ch
  obtain dy where dy: "doms y = Some dy" and sat: "satisfied_loop i j xval dy = Inr True"
    and rest: "revise_loop i j x y used rest False doms = (Inr b, doms')"
    by (auto simp: revise_loop.simps [of i j x y used "xval # rest"]
        split: option.splits sum.splits if_splits)
  from Cons.IH [OF Cons.prems(1,2) _ rest] Cons.prems(3)
  have ih: "doms' = doms \<and> \<not> b \<and>
     (\<forall>w \<in> set rest. \<exists>v \<in> dom_words doms y. i < length w \<and> j < length v \<and> w ! i = v ! j)"
    by simp
  from satisfied_loop_True [OF sat] dy
  have "\<exists>v \<in> dom_words doms y. i < length xval \<and> j < length v \<and> xval ! i = v ! j"
    by (simp add: dom_words_def)
  with ih show ?case by simp
qed

lemma revise_returns:
  assumes "revise cw x y doms = (Inr b, doms')"
  shows "doms' = doms \<and> \<not> b \<and>
    (\<forall>i j. overlaps cw (x, y) = Some (Some (i, j)) \<longrightarrow>
      (\<forall>w \<in> dom_words doms x. \<exists>v \<in> dom_words doms y. i < length w \<and> j < length v \<and> w ! i = v ! j))"
proof (cases "overlaps cw (x, y)")
  case None
  with assms show ?thesis by (simp add: revise_def)
next
  case (Some ov)
  show ?thesis
  proof (cases ov)
    case None
    with Some assms show ?thesis by (auto simp: revise_def)
  next
    case (Some ij)
    obtain i j where ij: "ij = (i, j)" by (cases ij)
    show ?thesis
    proof (cases "doms x")
      case None
      with \<open>overlaps cw (x, y) = Some ov\<close> Some ij assms show ?thesis by (simp add: revise_def)
    next
      case (Some dx)
      with \<open>overlaps cw (x, y) = Some ov\<close> \<open>ov = Some ij\<close> ij assms
      have "revise_loop i j x y (set_len dx) dx False doms = (Inr b, doms')"
        by (simp add: revise_def)
      from revise_loop_returns [OF Some refl subset_refl this]
      show ?thesis
        using \<open>overlaps cw (x, y) = Some ov\<close> \<open>ov = Some ij\<close> ij Some
        by (simp add: dom_words_def)
    qed
  qed
qed

lemma ac3_loop_Nil: "ac3_loop cw [] doms = Some (Inr True, [], doms)"
  by (simp add: ac3_loop.simps)

lemma ac3_loop_Cons:
  "ac3_loop cw ((x, y) # rest) doms =
     (case revise cw x y doms of
        (Inl e, doms') \<Rightarrow> Some (Inl e, rest, doms')
      | (Inr b, doms') \<Rightarrow> ac3_loop cw rest doms)"
proof -
  obtain r d where rv: "revise cw x y doms = (r, d)" by fastforce
  show ?thesis
  proof (cases r)
    case (Inl e)
    with rv show ?thesis by (simp add: ac3_loop.simps [of cw "(x, y) # rest"])
  next
    case (Inr b)
    with rv revise_returns [of cw x y doms b d] show ?thesis
      by (simp add: ac3_loop.simps [of cw "(x, y) # rest"])
  qed
qed

lemma ac3_loop_total: "\<exists>r. ac3_loop cw arcs doms = Some r"
proof (induction arcs)
  case Nil
  show ?case by (simp add: ac3_loop_Nil)
next
  case (Cons a arcs)
  obtain x y where a: "a = (x, y)" by (cases a)
  from Cons show ?case
    unfolding a ac3_loop_Cons by (auto split: prod.splits sum.splits)
qed

lemma ac3_loop_result:
  "ac3_loop cw arcs doms = Some (r, arcs', doms') \<Longrightarrow>
   (\<exists>k. arcs' = drop k arcs \<and> (arcs \<noteq> [] \<longrightarrow> 0 < k)) \<and>
   (\<forall>v. dom_words doms' v \<subseteq> dom_words doms v) \<and>
   r \<noteq> Inr False \<and>
   (r = Inr True \<longrightarrow> arcs' = [] \<and> doms' = doms \<and>
      (\<forall>(x, y) \<in> set arcs. \<exists>b. revise cw x y doms = (Inr b, doms)))"
proof (induction arcs)
  case Nil
  then show ?case by (auto simp: ac3_loop_Nil)
next
  case (Cons a arcs)
  obtain x y where a: "a = (x, y)" by (cases a)
  obtain r0 d0 where rv: "revise cw x y doms = (r0, d0)" by fastforce
  show ?case
  proof (cases r0)
    case (Inl e)
    with Cons.prems rv a have "r = Inl e" "arcs' = arcs" "doms' = d0"
      by (simp_all add: ac3_loop_Cons)
    moreover have "\<forall>v. dom_words d0 v \<subseteq> dom_words doms v"
      using revise_subset [of cw x y doms] rv by simp
    moreover have "arcs = drop 1 (a # arcs)" by simp
    ultimately show ?thesis by (metis zero_less_one sum.distinct(1))
  next
    case (Inr b)
    with Cons.prems rv a have loop: "ac3_loop cw arcs doms = Some (r, arcs', doms')"
      by (simp add: ac3_loop_Cons)
    from revise_returns [of cw x y doms b d0] rv Inr
    have same: "revise cw x y doms = (Inr b, doms)" by simp
    from Cons.IH [OF loop] obtain k where k: "arcs' = drop k arcs" by blast
    then have "arcs' = drop (Suc k) (a # arcs)" by simp
    then have "\<exists>k. arcs' = drop k (a # arcs) \<and> (a # arcs \<noteq> [] \<longrightarrow> 0 < k)" by blast
    with Cons.IH [OF loop] same a show ?thesis by auto
  qed
qed

lemma set_arcs_of_neighbors:
  "set (arcs_of_neighbors var ns arcs) = set arcs \<union> (\<lambda>n. (n, var)) ` set ns"
  by (induction ns arbitrary: arcs) auto

lemma set_arcs_of_variables:
  "set (arcs_of_variables cw vars arcs) =
     set arcs \<union> {(n, var). var \<in> set vars \<and> n \<in> set (neighbors cw var)}"
  by (induction vars arbitrary: arcs) (auto simp: set_arcs_of_neighbors)

lemma set_all_arcs:
  "set (all_arcs cw) = {(n, var). var \<in> set (variables cw) \<and> n \<in> set (neighbors cw var)}"
  by (simp add: all_arcs_def set_arcs_of_variables)

section \<open>Properties of the operations\<close>

lemma solve_never_returns: "solve cw doms = Some (r, doms') \<Longrightarrow> \<exists>e. r = Inl e"
  by (auto simp: solve_def backtrack_def split: prod.splits sum.splits option.splits)

text \<open>
  Claim C1: \<open>solve()\<close> returns a complete, consistent assignment or \<open>None\<close> and ends in
  no other way. On the puzzle with one slot of length 3 and the vocabulary CAT, DOG the
  code ends with \<open>NotImplementedError\<close>, raised by \<open>backtrack\<close>; by \<open>solve_never_returns\<close>
  no run of \<open>solve\<close> returns a value.
\<close>

theorem solve_raises_not_implemented:
  "map_option fst (solve puzzle_one_slot (init_domains puzzle_one_slot))
     = Some (Inl NotImplementedError)"
  by (simp add: concrete_defs solve_def enforce_node_consistency_def node_loop.simps
      set_len_def ac3_def all_arcs_def neighbors_def ac3_loop.simps backtrack_def)

lemma consistent_never_True: "consistent cw assignment \<noteq> Inr (Some True)"
proof (cases assignment)
  case Nil
  then show ?thesis by (simp add: consistent_def)
next
  case (Cons p rest)
  obtain var val where "p = (var, val)" by (cases p)
  with Cons show ?thesis
    by (simp add: consistent_def split: option.splits sum.splits)
qed

text \<open>
  Claim C2: \<open>consistent\<close> returns \<open>True\<close> exactly for the assignments with distinct words of
  the right lengths and agreeing overlaps. The assignment of CAT to the only slot (length
  3, no neighbours) meets all three conditions, and the code raises \<open>TypeError\<close> at
  \<open>values.append[val]\<close>; on the empty assignment it returns \<open>None\<close>. By
  \<open>consistent_never_True\<close> it returns \<open>True\<close> on no input.
\<close>

theorem consistent_raises_type_error:
  "consistent puzzle_one_slot [(slot3, Some ''CAT'')] = Inl TypeError
   \<and> length ''CAT'' = var_length slot3
   \<and> neighbors puzzle_one_slot slot3 = []
   \<and> consistent puzzle_one_slot [] = Inr None"
  by (simp add: concrete_defs consistent_def neighbors_def)

text \<open>
  Claim C3: \<open>assignment_complete\<close> is \<open>True\<close> exactly when every slot has a word, and
  \<open>False\<close> when a slot is missing from the assignment. On the empty assignment of a
  puzzle with one slot the code returns \<open>True\<close>.
\<close>

theorem assignment_complete_empty:
  "assignment_complete puzzle_one_slot [] = True
   \<and> slot3 \<in> set (variables puzzle_one_slot)
   \<and> map_of ([] :: assignment) slot3 = None"
  by (simp add: concrete_defs assignment_complete_def)

text \<open>
  Claim C4: after \<open>enforce_node_consistency\<close> each domain holds exactly its former words
  of the slot's length. For a slot of length 4 with the domain CAT, DOG, BIRD the code
  removes the first word of another length that the iteration meets and then raises
  \<open>RuntimeError\<close>; DOG, of length 3, stays in the domain.
\<close>

theorem enforce_node_consistency_raises:
  "fst (enforce_node_consistency puzzle_length4 (init_domains puzzle_length4))
     = Inl RuntimeError
   \<and> snd (enforce_node_consistency puzzle_length4 (init_domains puzzle_length4)) slot4
     = Some [''DOG'', ''BIRD'']
   \<and> length ''DOG'' \<noteq> var_length slot4"
  by (simp add: concrete_defs enforce_node_consistency_def node_loop.simps set_len_def)

text \<open>
  Claim C5: with overlap \<open>(i, j)\<close>, \<open>revise(x, y)\<close> removes exactly the words of
  \<open>domain(x)\<close> without support in \<open>domain(y)\<close> and returns \<open>True\<close> iff a word was removed.
  With overlap (1, 0), \<open>domain(x)\<close> = CAT, DOG and \<open>domain(y)\<close> = TIE neither word has
  support; the code removes one of them and raises \<open>RuntimeError\<close>, and the other stays.
  By \<open>revise_not_True\<close> it returns \<open>True\<close> on no input.
\<close>

theorem revise_raises:
  "fst (revise puzzle_crossing slotA slotB
          (doms_of [(slotA, [''CAT'', ''DOG'']), (slotB, [''TIE''])])) = Inl RuntimeError
   \<and> snd (revise puzzle_crossing slotA slotB
          (doms_of [(slotA, [''CAT'', ''DOG'']), (slotB, [''TIE''])])) slotA = Some [''DOG'']"
  by (simp add: concrete_defs revise_def revise_loop.simps set_len_def)

text \<open>
  Claim C7: when a revision empties a domain, \<open>ac3\<close> returns \<open>False\<close> at once. With two
  crossing slots whose domains are CAT and DOG the first revision empties a domain, and
  the code raises \<open>RuntimeError\<close> instead of returning \<open>False\<close>.
\<close>

theorem ac3_raises_on_emptied_domain:
  "map_option fst (ac3 puzzle_crossing None (doms_of [(slotA, [''CAT'']), (slotB, [''DOG''])]))
     = Some (Inl RuntimeError)
   \<and> map_option (\<lambda>r. snd (snd r) slotB)
       (ac3 puzzle_crossing None (doms_of [(slotA, [''CAT'']), (slotB, [''DOG''])]))
     = Some (Some [])"
  by (simp add: concrete_defs ac3_def all_arcs_def neighbors_def crosses_def ac3_loop.simps
      revise_def revise_loop.simps set_len_def)

text \<open>
  Claim C6: whenever \<open>ac3()\<close>, called without arcs, returns \<open>True\<close>, every word
  \<open>w\<close> in the domain of a slot \<open>x\<close> has, for every slot \<open>y\<close> crossing \<open>x\<close> with overlap
  \<open>(i, j)\<close>, a word \<open>v\<close> in the domain of \<open>y\<close> with \<open>w[i] == v[j]\<close> (both indices in
  range). On a puzzle with a single slot \<open>ac3()\<close> returns \<open>True\<close> and changes no domain.
\<close>

theorem ac3_arc_consistent:
  "(ac3 cw None doms = Some (Inr True, arcs', doms') \<longrightarrow>
      (\<forall>x y i j w. x \<in> set (variables cw) \<and> y \<in> set (variables cw) \<and> x \<noteq> y
          \<and> overlaps cw (x, y) = Some (Some (i, j)) \<and> w \<in> dom_words doms' x
        \<longrightarrow> (\<exists>v \<in> dom_words doms' y. i < length w \<and> j < length v \<and> w ! i = v ! j)))
   \<and> (variables cw = [s] \<longrightarrow> ac3 cw None doms = Some (Inr True, [], doms))"
proof (intro conjI impI allI)
  fix x y i j w
  assume run: "ac3 cw None doms = Some (Inr True, arcs', doms')"
    and xy: "x \<in> set (variables cw) \<and> y \<in> set (variables cw) \<and> x \<noteq> y
          \<and> overlaps cw (x, y) = Some (Some (i, j)) \<and> w \<in> dom_words doms' x"
  from run have loop: "ac3_loop cw (all_arcs cw) doms = Some (Inr True, arcs', doms')"
    by (simp add: ac3_def)
  from ac3_loop_result [OF loop]
  have same: "doms' = doms"
    and all: "\<forall>(x, y) \<in> set (all_arcs cw). \<exists>b. revise cw x y doms = (Inr b, doms)"
    by simp_all
  from xy have "x \<in> set (neighbors cw y)"
    by (simp add: neighbors_def crosses_def)
  with xy have "(x, y) \<in> set (all_arcs cw)"
    by (simp add: set_all_arcs)
  with all obtain b where "revise cw x y doms = (Inr b, doms)" by blast
  from revise_returns [OF this] xy same
  show "\<exists>v \<in> dom_words doms' y. i < length w \<and> j < length v \<and> w ! i = v ! j"
    by blast
next
  assume "variables cw = [s]"
  then have "all_arcs cw = []"
    by (simp add: all_arcs_def neighbors_def)
  then show "ac3 cw None doms = Some (Inr True, [], doms)"
    by (simp add: ac3_def ac3_loop_Nil)
qed

text \<open>
  The theorem at the crossing puzzle with the domains CAT and ACT, and at the puzzle with
  one slot.
\<close>

theorem ac3_arc_consistent_witness:
  "ac3 puzzle_crossing None (doms_of [(slotA, [''CAT'']), (slotB, [''ACT''])])
     = Some (Inr True, [], doms_of [(slotA, [''CAT'']), (slotB, [''ACT''])])
   \<and> overlaps puzzle_crossing (slotA, slotB) = Some (Some (1, 0))
   \<and> ''CAT'' \<in> dom_words (doms_of [(slotA, [''CAT'']), (slotB, [''ACT''])]) slotA
   \<and> (\<exists>v \<in> dom_words (doms_of [(slotA, [''CAT'']), (slotB, [''ACT''])]) slotB.
         1 < length ''CAT'' \<and> 0 < length v \<and> ''CAT'' ! 1 = v ! 0)
   \<and> variables puzzle_one_slot = [slot3]
   \<and> ac3 puzzle_one_slot None (init_domains puzzle_one_slot)
        = Some (Inr True, [], init_domains puzzle_one_slot)"
proof -
  let ?d = "doms_of [(slotA, [''CAT'']), (slotB, [''ACT''])]"
  have run: "ac3 puzzle_crossing None ?d = Some (Inr True, [], ?d)"
    by (simp add: concrete_defs ac3_def all_arcs_def neighbors_def crosses_def ac3_loop.simps
        revise_def revise_loop.simps set_len_def)
  have ov: "overlaps puzzle_crossing (slotA, slotB) = Some (Some (1, 0))"
    by (simp add: concrete_defs)
  have mem: "''CAT'' \<in> dom_words ?d slotA"
    by (simp add: concrete_defs dom_words_def)
  have vars: "slotA \<in> set (variables puzzle_crossing) \<and> slotB \<in> set (variables puzzle_crossing)
      \<and> slotA \<noteq> slotB"
    by (simp add: concrete_defs)
  have one: "variables puzzle_one_slot = [slot3]"
    by (simp add: concrete_defs)
  from ac3_arc_consistent [of puzzle_crossing ?d "[]" ?d] run ov mem vars
  have "\<exists>v \<in> dom_words ?d slotB. 1 < length ''CAT'' \<and> 0 < length v \<and> ''CAT'' ! 1 = v ! 0"
    by blast
  moreover from ac3_arc_consistent [of puzzle_one_slot "init_domains puzzle_one_slot" _ _ slot3] one
  have "ac3 puzzle_one_slot None (init_domains puzzle_one_slot)
        = Some (Inr True, [], init_domains puzzle_one_slot)"
    by blast
  ultimately show ?thesis using run ov mem one by blast
qed

text \<open>
  Claim C8: \<open>enforce_node_consistency\<close>, \<open>revise\<close> and \<open>ac3\<close> never add a word to a
  domain: the domain of every slot after the call is a subset of the domain before it,
  whether the call returns or raises.
\<close>

theorem domains_only_shrink:
  "dom_words (snd (enforce_node_consistency cw doms)) v \<subseteq> dom_words doms v
   \<and> dom_words (snd (revise cw x y doms)) v \<subseteq> dom_words doms v
   \<and> (ac3 cw arcs doms = Some (r, arcs', doms') \<longrightarrow> dom_words doms' v \<subseteq> dom_words doms v)"
proof (intro conjI impI)
  show "dom_words (snd (enforce_node_consistency cw doms)) v \<subseteq> dom_words doms v"
    by (simp add: enforce_node_consistency_def node_vars_subset)
  show "dom_words (snd (revise cw x y doms)) v \<subseteq> dom_words doms v"
    by (rule revise_subset)
  assume "ac3 cw arcs doms = Some (r, arcs', doms')"
  then obtain given where "ac3_loop cw given doms = Some (r, arcs', doms')"
    by (auto simp: ac3_def split: option.splits)
  from ac3_loop_result [OF this] show "dom_words doms' v \<subseteq> dom_words doms v"
    by blast
qed

text \<open>
  The theorem at a run of \<open>ac3\<close> that removes a word.
\<close>

theorem domains_only_shrink_witness:
  "ac3 puzzle_crossing (Some [(slotA, slotB)])
       (doms_of [(slotA, [''CAT'', ''DOG'']), (slotB, [''TIE''])])
     = Some (Inl RuntimeError, [], (doms_of [(slotA, [''CAT'', ''DOG'']), (slotB, [''TIE''])])
               (slotA \<mapsto> [''DOG'']))
   \<and> dom_words ((doms_of [(slotA, [''CAT'', ''DOG'']), (slotB, [''TIE''])])
               (slotA \<mapsto> [''DOG''])) slotA
      \<subseteq> dom_words (doms_of [(slotA, [''CAT'', ''DOG'']), (slotB, [''TIE''])]) slotA"
proof -
  let ?d = "doms_of [(slotA, [''CAT'', ''DOG'']), (slotB, [''TIE''])]"
  have run: "ac3 puzzle_crossing (Some [(slotA, slotB)]) ?d
     = Some (Inl RuntimeError, [], ?d(slotA \<mapsto> [''DOG'']))"
    by (simp add: concrete_defs ac3_def ac3_loop.simps
        revise_def revise_loop.simps set_len_def)
  from domains_only_shrink [of puzzle_crossing ?d slotA slotA slotB "Some [(slotA, slotB)]"
      "Inl RuntimeError" "[]" "?d(slotA \<mapsto> [''DOG''])"] run
  show ?thesis by blast
qed

text \<open>
  Claim C9: \<open>ac3\<close> terminates on every puzzle, every worklist of arcs (given or built)
  and all domains: the loop always reaches a result.
\<close>

theorem ac3_terminates: "\<exists>r. ac3 cw arcs doms = Some r"
  unfolding ac3_def by (cases arcs) (simp_all only: option.case ac3_loop_total)

text \<open>
  What a run of \<open>ac3\<close> leaves of the list that the caller supplies: the original list with
  arcs popped from its front and nothing else. Since \<open>revise\<close> returns \<open>True\<close> on no
  input, the branch of the loop that appends \<open>(z, x)\<close> is taken in no run.
\<close>

lemma ac3_given_list_suffix:
  assumes "ac3 cw (Some arcs) doms = Some (r, arcs', doms')"
  shows "\<exists>k. arcs' = drop k arcs \<and> (arcs \<noteq> [] \<longrightarrow> 0 < k)"
proof -
  from assms have "ac3_loop cw arcs doms = Some (r, arcs', doms')"
    by (simp add: ac3_def)
  from ac3_loop_result [OF this] show ?thesis by simp
qed

lemma ac3_given_empty: "ac3 cw (Some []) doms = Some (Inr True, [], doms)"
  by (simp add: ac3_def ac3_loop_Nil)

text \<open>
  Claim C10: with a list of arcs supplied, \<open>ac3\<close> mutates that list in place, popping the
  processed arcs from the front and appending the re-enqueued arcs to the back. On the
  three-slot grid with the domains CAT, DOG (across), COW (left) and TIE, GNU (right) and
  the list \<open>[(across, left), (left, across)]\<close>, revising the first arc removes DOG from the
  across slot, whose domain stays non-empty, and the right slot is a neighbour other than
  the left one: the arc \<open>(right, across)\<close> is due at the back of the list. The code raises
  \<open>RuntimeError\<close> inside \<open>revise\<close> instead, and the caller's list holds only
  \<open>(left, across)\<close>: the arc was popped and nothing was appended.
\<close>

theorem ac3_never_reenqueues:
  "map_option (\<lambda>r. (fst r, fst (snd r), snd (snd r) slotA))
     (ac3 puzzle_three (Some [(slotA, slotL), (slotL, slotA)])
        (doms_of [(slotA, [''CAT'', ''DOG'']), (slotL, [''COW'']), (slotR, [''TIE'', ''GNU''])]))
     = Some (Inl RuntimeError, [(slotL, slotA)], Some [''CAT''])
   \<and> slotR \<in> set (neighbors puzzle_three slotA)
   \<and> slotR \<noteq> slotL"
  by (simp add: concrete_defs ac3_def ac3_loop.simps neighbors_def crosses_def
      revise_def revise_loop.simps set_len_def)

end
